theory Spec2Isabelle
  imports Complex_Main "HOL-Library.Multiset"
begin

section \<open>flexcalc: the data model\<close>

text \<open>
  \<^verbatim>\<open>REAL\<close> is BiopLib's name for \<^verbatim>\<open>double\<close>. The model computes in the real numbers:
  rounding, infinities and NaN are outside it. \<^verbatim>\<open>ULONG\<close> (the frame counter) and the
  \<^verbatim>\<open>int\<close> atom counter of \<^verbatim>\<open>RMSFrame\<close> are natural numbers: a file is taken to have
  fewer lines than either type can count. Allocation (\<^verbatim>\<open>INIT\<close>, \<^verbatim>\<open>ALLOCNEXT\<close>) is
  taken to succeed.
\<close>

type_synonym REAL = real

text \<open>
  A node of the linked list \<^verbatim>\<open>FRAME\<close> holds one coordinate triple; a frame is the
  list of its nodes and \<^verbatim>\<open>NULL\<close> is the empty list.
\<close>

datatype atom = Atom (ax: REAL) (ay: REAL) (az: REAL)

type_synonym FRAME = "atom list"

text \<open>
  A line of the trajectory file as \<^verbatim>\<open>fgets\<close> delivers it and \<^verbatim>\<open>TERMINATE\<close> trims it.
  \<open>Header h\<close> is a line whose first character is \<^verbatim>\<open>>\<close>, with \<open>h\<close> the text after
  it. \<open>Coords t a b c\<close> is any other line: \<open>t\<close> is its text and \<open>a b c\<close> are the
  values the node holds after \<^verbatim>\<open>sscanf(buffer, "%lf %lf %lf", ...)\<close>.
\<close>

datatype line = Header string | Coords string REAL REAL REAL

fun chars :: "line \<Rightarrow> string" where
  "chars (Header h) = CHR ''>'' # h"
| "chars (Coords t a b c) = t"

text \<open>
  The position of the stream \<^verbatim>\<open>in\<close> (the lines not yet read) together with the two
  static variables of \<^verbatim>\<open>ReadFrame\<close>.
\<close>

record reader =
  input :: "line list"
  buffer :: string
  firstEntry :: bool

text \<open>
  The state every pass starts from: the stream rewound and \<^verbatim>\<open>ReadFrame(NULL, NULL)\<close>
  called. The first call of \<^verbatim>\<open>ReadFrame\<close> then clears the buffer, so its earlier
  content does not matter.
\<close>

definition start :: "line list \<Rightarrow> reader" where
  "start file = \<lparr>input = file, buffer = [], firstEntry = True\<rparr>"

section \<open>Messages\<close>

definition PROGNAME :: string where
  "PROGNAME = ''flexcalc''"

definition MSG_ATOMMISMATCH :: string where
  "MSG_ATOMMISMATCH =
     ''Number of coordinates in frame doesn'' @ [CHR 0x27] @ ''t match first frame.'' @
     [CHR 0x0A] @ ''  Frame Header: ''"

definition MSG_NOMEM :: string where
  "MSG_NOMEM = ''No memory''"

text \<open>\<^verbatim>\<open>Msg\<close> writes one line to standard error; the model returns that line.\<close>

definition Msg :: "string \<Rightarrow> string \<Rightarrow> string" where
  "Msg msg submsg = PROGNAME @ '' error: '' @ msg @ submsg @ [CHR 0x0A]"

section \<open>Reading frames\<close>

text \<open>
  The \<^verbatim>\<open>while(fgets(...))\<close> loop of \<^verbatim>\<open>ReadFrame\<close>: it returns the frame built so far and
  the reader after the last line it took.
\<close>

fun ReadFrame_loop :: "line list \<Rightarrow> string \<Rightarrow> bool \<Rightarrow> FRAME \<Rightarrow> FRAME \<times> reader" where
  "ReadFrame_loop [] buf fe frame = (frame, \<lparr>input = [], buffer = buf, firstEntry = fe\<rparr>)"
| "ReadFrame_loop (Header h # ls) buf fe frame =
     (if \<not> fe then (frame, \<lparr>input = ls, buffer = chars (Header h), firstEntry = fe\<rparr>)
      else ReadFrame_loop ls (chars (Header h)) False frame)"
| "ReadFrame_loop (Coords t a b c # ls) buf fe frame =
     ReadFrame_loop ls t fe (frame @ [Atom a b c])"

text \<open>
  \<^verbatim>\<open>ReadFrame(in, header)\<close> for a stream that is not \<^verbatim>\<open>NULL\<close>: the frame, the content
  of \<^verbatim>\<open>header\<close> afterwards and the new reader.
\<close>

definition ReadFrame :: "reader \<Rightarrow> string \<Rightarrow> FRAME \<times> string \<times> reader" where
  "ReadFrame rd header =
     (let header' = (if firstEntry rd then header else buffer rd);
          buf = (if firstEntry rd then [] else buffer rd)
      in case ReadFrame_loop (input rd) buf (firstEntry rd) [] of
           (frame, rd') \<Rightarrow> (frame, header', rd'))"

text \<open>\<^verbatim>\<open>ReadFrame(NULL, NULL)\<close>: the reset.\<close>

definition ReadFrame_reset :: "reader \<Rightarrow> reader" where
  "ReadFrame_reset rd = rd\<lparr>firstEntry := True\<rparr>"

fun is_header :: "line \<Rightarrow> bool" where
  "is_header (Header h) = True"
| "is_header (Coords t a b c) = False"

fun CountFrames :: "line list \<Rightarrow> nat" where
  "CountFrames [] = 0"
| "CountFrames (l # ls) = (if is_header l then CountFrames ls + 1 else CountFrames ls)"

section \<open>Operations on frames\<close>

text \<open>
  \<^verbatim>\<open>RMSFrame\<close>: the loop carries the running sum and the atom count. Two empty frames
  would divide by zero in C (NaN); no pass calls it so, since a frame that was read is
  never empty.
\<close>

fun RMSFrame_loop :: "FRAME \<Rightarrow> FRAME \<Rightarrow> REAL \<Rightarrow> nat \<Rightarrow> REAL" where
  "RMSFrame_loop (p # ps) (q # qs) rmsd nCoor =
     RMSFrame_loop ps qs
       (rmsd + ((ax p - ax q) * (ax p - ax q) +
                (ay p - ay q) * (ay p - ay q) +
                (az p - az q) * (az p - az q)))
       (nCoor + 1)"
| "RMSFrame_loop [] [] rmsd nCoor = sqrt (rmsd / real nCoor)"
| "RMSFrame_loop ps qs rmsd nCoor = - 1"

definition RMSFrame :: "FRAME \<Rightarrow> FRAME \<Rightarrow> REAL" where
  "RMSFrame frame1 frame2 = RMSFrame_loop frame1 frame2 0 0"

fun CopyFrame :: "FRAME \<Rightarrow> FRAME" where
  "CopyFrame [] = []"
| "CopyFrame (f # fs) = Atom (ax f) (ay f) (az f) # CopyFrame fs"

text \<open>
  \<^verbatim>\<open>AddFrame\<close> updates the mean frame in place, also on the part it walked before a
  mismatch; the model returns the flag and the updated frame.
\<close>

fun AddFrame :: "FRAME \<Rightarrow> FRAME \<Rightarrow> nat \<Rightarrow> bool \<times> FRAME" where
  "AddFrame (f # fs) (g # gs) frameCount =
     (case AddFrame fs gs frameCount of
        (ok, fs') \<Rightarrow>
          (ok, Atom (ax f + ax g / real frameCount)
                    (ay f + ay g / real frameCount)
                    (az f + az g / real frameCount) # fs'))"
| "AddFrame [] [] frameCount = (True, [])"
| "AddFrame fs gs frameCount = (False, fs)"

section \<open>The passes\<close>

lemma ReadFrame_loop_consumes:
  "ReadFrame_loop ls buf fe frame = (frame', rd') \<Longrightarrow>
     length (input rd') \<le> length ls \<and> (frame' \<noteq> frame \<longrightarrow> length (input rd') < length ls)"
proof (induction ls buf fe frame rule: ReadFrame_loop.induct)
  case (1 buf fe frame)
  then show ?case by auto
next
  case (2 h ls buf fe frame)
  then show ?case by (cases fe) (auto split: if_splits)
next
  case (3 t a b c ls buf fe frame)
  then show ?case by fastforce
qed

lemma ReadFrame_consumes:
  "ReadFrame rd header = (frame, header', rd') \<Longrightarrow> frame \<noteq> [] \<Longrightarrow>
     length (input rd') < length (input rd)"
  unfolding ReadFrame_def Let_def
  by (auto split: prod.splits dest: ReadFrame_loop_consumes)

text \<open>
  The loop of \<^verbatim>\<open>CalculateMeanCoords\<close>. It returns the mean frame (\<^verbatim>\<open>NULL\<close> after a
  mismatch) and the lines written to standard error.
\<close>

function CalculateMeanCoords_loop ::
  "reader \<Rightarrow> string \<Rightarrow> FRAME \<Rightarrow> nat \<Rightarrow> FRAME \<times> string list" where
  "CalculateMeanCoords_loop rd header meanFrame frameCount =
     (case ReadFrame rd header of
        (frame, header', rd') \<Rightarrow>
          if frame = [] then (meanFrame, [])
          else (case AddFrame meanFrame frame frameCount of
                  (ok, meanFrame') \<Rightarrow>
                    if \<not> ok then ([], [Msg MSG_ATOMMISMATCH header'])
                    else CalculateMeanCoords_loop rd' header' meanFrame' frameCount))"
  by pat_completeness auto
termination
  by (relation "measure (\<lambda>(rd, header, meanFrame, frameCount). length (input rd))")
     (auto dest: ReadFrame_consumes [OF sym])

text \<open>
  \<^verbatim>\<open>CalculateMeanCoords(in, frameCount)\<close>; \<open>header\<close> is the content of its local
  array at entry, which the source does not initialise.
\<close>

definition CalculateMeanCoords :: "line list \<Rightarrow> nat \<Rightarrow> string \<Rightarrow> FRAME \<times> string list" where
  "CalculateMeanCoords file frameCount header =
     (case ReadFrame (start file) header of
        (meanFrame, header1, rd1) \<Rightarrow>
          CalculateMeanCoords_loop (start file) header1
            (map (\<lambda>f. Atom 0 0 0) meanFrame) frameCount)"

text \<open>
  The loop of \<^verbatim>\<open>FindClosestToMean\<close>. \<open>best\<close> is \<open>None\<close> while \<^verbatim>\<open>firstFrame\<close> is
  \<^verbatim>\<open>TRUE\<close> (then \<^verbatim>\<open>closestFrame\<close> is \<^verbatim>\<open>NULL\<close> and \<^verbatim>\<open>lowestRMSD\<close> not yet assigned) and
  \<open>Some (closestFrame, lowestRMSD)\<close> afterwards. The messages print the parameter
  \<^verbatim>\<open>header\<close>, which the function never assigns; \<^verbatim>\<open>thisHeader\<close> receives the headers.
\<close>

function FindClosestToMean_loop ::
  "reader \<Rightarrow> string \<Rightarrow> FRAME \<Rightarrow> string \<Rightarrow> (FRAME \<times> REAL) option \<Rightarrow> FRAME \<times> string list" where
  "FindClosestToMean_loop rd thisHeader meanFrame header best =
     (case ReadFrame rd thisHeader of
        (frame, thisHeader', rd') \<Rightarrow>
          if frame = [] then ((case best of None \<Rightarrow> [] | Some (closestFrame, lowestRMSD) \<Rightarrow> closestFrame), [])
          else if RMSFrame meanFrame frame < 0 then ([], [Msg MSG_ATOMMISMATCH header])
          else (case best of
                  None \<Rightarrow>
                    FindClosestToMean_loop rd' thisHeader' meanFrame header
                      (Some (CopyFrame frame, RMSFrame meanFrame frame))
                | Some (closestFrame, lowestRMSD) \<Rightarrow>
                    if RMSFrame meanFrame frame < lowestRMSD
                    then FindClosestToMean_loop rd' thisHeader' meanFrame header
                           (Some (CopyFrame frame, RMSFrame meanFrame frame))
                    else FindClosestToMean_loop rd' thisHeader' meanFrame header best))"
  by pat_completeness auto
termination
  by (relation "measure (\<lambda>(rd, thisHeader, meanFrame, header, best). length (input rd))")
     (auto dest: ReadFrame_consumes [OF sym])

definition FindClosestToMean ::
  "line list \<Rightarrow> FRAME \<Rightarrow> string \<Rightarrow> string \<Rightarrow> FRAME \<times> string list" where
  "FindClosestToMean file meanFrame header thisHeader =
     FindClosestToMean_loop (start file) thisHeader meanFrame header None"

text \<open>
  The loop of \<^verbatim>\<open>CalculateMeanRMSD\<close>: \<open>Inl\<close> is the early \<^verbatim>\<open>return(-1.0)\<close> with the
  line it wrote to standard error, \<open>Inr\<close> the sum at the end of the stream.
\<close>

function CalculateMeanRMSD_loop ::
  "reader \<Rightarrow> string \<Rightarrow> FRAME \<Rightarrow> REAL \<Rightarrow> string list + REAL" where
  "CalculateMeanRMSD_loop rd header closestFrame meanRMSD =
     (case ReadFrame rd header of
        (frame, header', rd') \<Rightarrow>
          if frame = [] then Inr meanRMSD
          else if RMSFrame closestFrame frame < 0 then Inl [Msg MSG_ATOMMISMATCH header']
          else CalculateMeanRMSD_loop rd' header' closestFrame
                 (meanRMSD + RMSFrame closestFrame frame))"
  by pat_completeness auto
termination
  by (relation "measure (\<lambda>(rd, header, closestFrame, meanRMSD). length (input rd))")
     (auto dest: ReadFrame_consumes [OF sym])

definition CalculateMeanRMSD ::
  "line list \<Rightarrow> FRAME \<Rightarrow> nat \<Rightarrow> string \<Rightarrow> REAL \<times> string list" where
  "CalculateMeanRMSD file closestFrame frameCount header =
     (case CalculateMeanRMSD_loop (start file) header closestFrame 0 of
        Inl errs \<Rightarrow> (- 1, errs)
      | Inr meanRMSD \<Rightarrow> (meanRMSD / real frameCount, []))"

section \<open>The program\<close>

text \<open>
  Standard output is a sequence of items: a text written by \<^verbatim>\<open>printf\<close>, or a value
  written by \<^verbatim>\<open>printf("%.4f\n", ...)\<close>.
\<close>

datatype out = Text string | Fixed4 REAL

record outcome =
  stdout :: "out list"
  stderr :: "string list"
  status :: int

text \<open>
  \<^verbatim>\<open>Die\<close> after the lines \<open>errs\<close> that were already written to standard error:
  \<^verbatim>\<open>Msg\<close>, then \<^verbatim>\<open>exit(1)\<close>.
\<close>

definition Die :: "string \<Rightarrow> string \<Rightarrow> string list \<Rightarrow> outcome" where
  "Die msg submsg errs = \<lparr>stdout = [], stderr = errs @ [Msg msg submsg], status = 1\<rparr>"

definition Usage :: "out list" where
  "Usage =
     [Text ([CHR 0x0A] @ ''flexcalc V1.0 (c) Andrew C.R. Martin, abYinformatics'' @ [CHR 0x0A]),
      Text ([CHR 0x0A] @ ''Usage: flexcalc trajectoryfile'' @ [CHR 0x0A]),
      Text ([CHR 0x0A] @ ''Takes a simple trajectory file in the format:'' @ [CHR 0x0A]),
      Text (''      >frame header'' @ [CHR 0x0A]),
      Text (''      x y z'' @ [CHR 0x0A]),
      Text (''      x y z'' @ [CHR 0x0A]),
      Text (''      ...'' @ [CHR 0x0A]),
      Text (''      >frame header'' @ [CHR 0x0A]),
      Text (''      x y z'' @ [CHR 0x0A]),
      Text (''      x y z'' @ [CHR 0x0A]),
      Text (''      ...'' @ [CHR 0x0A]),
      Text (''      (etc)'' @ [CHR 0x0A]),
      Text ([CHR 0x0A] @ ''and calculates a flexibility score. This is done by calculating the'' @ [CHR 0x0A]),
      Text (''mean coordinate postions across the frames, finding the frame closest'' @ [CHR 0x0A]),
      Text (''to the mean positions and then calculating the RMSD of each frame to'' @ [CHR 0x0A]),
      Text (''that closest-to-mean frame. These RMSD values are then averaged.'' @ [CHR 0x0A]),
      Text ([CHR 0x0A] @ ''The code makes multiple passes of the file in order to minimize'' @ [CHR 0x0A]),
      Text (''memory usage for large trajectories.'' @ [CHR 0x0A, CHR 0x0A])]"

text \<open>
  \<^verbatim>\<open>ParseCmdLine\<close>: \<open>argv\<close> is the whole argument vector, the program name first. The
  result is the flag and the content of \<^verbatim>\<open>inFile\<close> afterwards.
\<close>

definition ParseCmdLine :: "string list \<Rightarrow> string \<Rightarrow> bool \<times> string" where
  "ParseCmdLine argv inFile =
     (case tl argv of
        [] \<Rightarrow> (True, inFile)
      | a # as \<Rightarrow> (True, a))"

text \<open>
  The arrays that the source declares and reads without initialising them: their content
  at entry is an input of the model.
\<close>

record stack =
  main_header :: string
  mean_header :: string
  closest_thisHeader :: string
  rmsd_header :: string

text \<open>
  \<^verbatim>\<open>main\<close>. \<open>fopen\<close> is the file system: the lines of the file of that name, or \<open>None\<close>
  where \<^verbatim>\<open>fopen(inFile, "r")\<close> returns \<^verbatim>\<open>NULL\<close>.
\<close>

definition main :: "(string \<Rightarrow> line list option) \<Rightarrow> string list \<Rightarrow> stack \<Rightarrow> outcome" where
  "main fopen argv stk =
     (case ParseCmdLine argv [] of
        (ok, inFile) \<Rightarrow>
          if ok then
            (case fopen inFile of
               None \<Rightarrow> \<lparr>stdout = [], stderr = [], status = 0\<rparr>
             | Some file \<Rightarrow>
                 if CountFrames file < 1 then Die ''No frames in trajectory'' [] []
                 else
                   (case CalculateMeanCoords file (CountFrames file) (mean_header stk) of
                      (meanFrame, errs1) \<Rightarrow>
                        if meanFrame = []
                        then Die ''Unable to calculate mean coordinates'' [] errs1
                        else
                          (case FindClosestToMean file meanFrame (main_header stk)
                                  (closest_thisHeader stk) of
                             (closestFrame, errs2) \<Rightarrow>
                               if closestFrame = []
                               then Die (''Couldn'' @ [CHR 0x27] @ ''t find closest frame'')
                                      (main_header stk) (errs1 @ errs2)
                               else
                                 (case CalculateMeanRMSD file closestFrame (CountFrames file)
                                         (rmsd_header stk) of
                                    (meanRMSD, errs3) \<Rightarrow>
                                      if meanRMSD < 0
                                      then Die ''Unable to calculate mean RMSD'' []
                                             (errs1 @ errs2 @ errs3)
                                      else \<lparr>stdout = [Fixed4 meanRMSD],
                                            stderr = errs1 @ errs2 @ errs3,
                                            status = 0\<rparr>))))
          else \<lparr>stdout = Usage, stderr = [], status = 0\<rparr>)"

section \<open>The frames a pass sees\<close>

text \<open>
  Every pass is a loop \<^verbatim>\<open>while((frame = ReadFrame(in, header)) != NULL)\<close>.
  \<open>read_frames\<close> lists what that loop sees: each frame with the content of \<^verbatim>\<open>header\<close>
  after the call that returned it. \<open>frames_of\<close> is the list of the frames alone, read
  from the start of the file.
\<close>

function read_frames :: "reader \<Rightarrow> string \<Rightarrow> (string \<times> FRAME) list" where
  "read_frames rd header =
     (case ReadFrame rd header of
        (frame, header', rd') \<Rightarrow>
          if frame = [] then [] else (header', frame) # read_frames rd' header')"
  by pat_completeness auto
termination
  by (relation "measure (\<lambda>(rd, header). length (input rd))")
     (auto dest: ReadFrame_consumes [OF sym])

definition frames_of :: "line list \<Rightarrow> FRAME list" where
  "frames_of file = map snd (read_frames (start file) [])"

text \<open>The squared Euclidean distance of two coordinate triples.\<close>

definition squared_distance :: "atom \<Rightarrow> atom \<Rightarrow> REAL" where
  "squared_distance p q = (ax p - ax q)\<^sup>2 + (ay p - ay q)\<^sup>2 + (az p - az q)\<^sup>2"

text \<open>The bodies of the three loops, run over a list of frames that were read.\<close>

fun mean_fold :: "(string \<times> FRAME) list \<Rightarrow> FRAME \<Rightarrow> nat \<Rightarrow> FRAME \<times> string list" where
  "mean_fold [] meanFrame n = (meanFrame, [])"
| "mean_fold ((h, frame) # r) meanFrame n =
     (case AddFrame meanFrame frame n of
        (ok, meanFrame') \<Rightarrow>
          if \<not> ok then ([], [Msg MSG_ATOMMISMATCH h]) else mean_fold r meanFrame' n)"

fun closest_fold ::
  "(string \<times> FRAME) list \<Rightarrow> FRAME \<Rightarrow> string \<Rightarrow> (FRAME \<times> REAL) option \<Rightarrow> FRAME \<times> string list" where
  "closest_fold [] meanFrame header best =
     ((case best of None \<Rightarrow> [] | Some (closestFrame, lowestRMSD) \<Rightarrow> closestFrame), [])"
| "closest_fold ((h, frame) # r) meanFrame header best =
     (if RMSFrame meanFrame frame < 0 then ([], [Msg MSG_ATOMMISMATCH header])
      else (case best of
              None \<Rightarrow> closest_fold r meanFrame header (Some (CopyFrame frame, RMSFrame meanFrame frame))
            | Some (closestFrame, lowestRMSD) \<Rightarrow>
                if RMSFrame meanFrame frame < lowestRMSD
                then closest_fold r meanFrame header (Some (CopyFrame frame, RMSFrame meanFrame frame))
                else closest_fold r meanFrame header best))"

fun rmsd_fold :: "(string \<times> FRAME) list \<Rightarrow> FRAME \<Rightarrow> REAL \<Rightarrow> string list + REAL" where
  "rmsd_fold [] closestFrame meanRMSD = Inr meanRMSD"
| "rmsd_fold ((h, frame) # r) closestFrame meanRMSD =
     (if RMSFrame closestFrame frame < 0 then Inl [Msg MSG_ATOMMISMATCH h]
      else rmsd_fold r closestFrame (meanRMSD + RMSFrame closestFrame frame))"

declare read_frames.simps [simp del]
declare CalculateMeanCoords_loop.simps [simp del]
declare FindClosestToMean_loop.simps [simp del]
declare CalculateMeanRMSD_loop.simps [simp del]

lemma mean_loop_fold:
  "CalculateMeanCoords_loop rd header meanFrame n = mean_fold (read_frames rd header) meanFrame n"
proof (induction rd header meanFrame n rule: CalculateMeanCoords_loop.induct)
  case (1 rd header meanFrame n)
  show ?case
    by (subst CalculateMeanCoords_loop.simps, subst read_frames.simps)
       (use 1 in \<open>auto split: prod.splits\<close>)
qed

lemma closest_loop_fold:
  "FindClosestToMean_loop rd thisHeader meanFrame header best =
     closest_fold (read_frames rd thisHeader) meanFrame header best"
proof (induction rd thisHeader meanFrame header best rule: FindClosestToMean_loop.induct)
  case (1 rd thisHeader meanFrame header best)
  show ?case
    by (subst FindClosestToMean_loop.simps, subst read_frames.simps)
       (use 1 in \<open>auto split: prod.splits option.splits\<close>)
qed

lemma rmsd_loop_fold:
  "CalculateMeanRMSD_loop rd header closestFrame meanRMSD =
     rmsd_fold (read_frames rd header) closestFrame meanRMSD"
proof (induction rd header closestFrame meanRMSD rule: CalculateMeanRMSD_loop.induct)
  case (1 rd header closestFrame meanRMSD)
  show ?case
    by (subst CalculateMeanRMSD_loop.simps, subst read_frames.simps)
       (use 1 in \<open>auto split: prod.splits\<close>)
qed

lemma read_frames_header_irrelevant:
  "map snd (read_frames rd header) = map snd (read_frames rd header2)"
proof (induction rd header arbitrary: header2 rule: read_frames.induct)
  case (1 rd header)
  obtain frame h1 rd' where r1: "ReadFrame rd header = (frame, h1, rd')"
    by (cases "ReadFrame rd header") auto
  then obtain h2 where r2: "ReadFrame rd header2 = (frame, h2, rd')"
    by (auto simp: ReadFrame_def Let_def split: prod.splits)
  show ?case
  proof (cases "frame = []")
    case True
    with r1 r2 show ?thesis
      by (subst read_frames.simps, subst (2) read_frames.simps) simp
  next
    case False
    from 1 [OF r1 [symmetric] refl False, of h2] r1 r2 False show ?thesis
      by (subst read_frames.simps, subst (2) read_frames.simps) simp
  qed
qed

lemma read_frames_nonempty: "(h, f) \<in> set (read_frames rd header) \<Longrightarrow> f \<noteq> []"
proof (induction rd header arbitrary: h f rule: read_frames.induct)
  case (1 rd header)
  from "1.prems" show ?case
    by (subst (asm) read_frames.simps) (use "1.IH" in \<open>force split: prod.splits if_splits\<close>)
qed

lemma CopyFrame_id: "CopyFrame frame = frame"
  by (induction frame) auto

lemma RMSFrame_loop_eq:
  "length ps = length qs \<Longrightarrow>
     RMSFrame_loop ps qs r n =
       sqrt ((r + (\<Sum>(p, q) \<leftarrow> zip ps qs. squared_distance p q)) / real (n + length ps))"
proof (induction ps qs r n rule: RMSFrame_loop.induct)
  case (1 p ps q qs rmsd nCoor)
  then show ?case
    by (simp add: squared_distance_def power2_eq_square algebra_simps)
qed auto

lemma RMSFrame_loop_mismatch:
  "length ps \<noteq> length qs \<Longrightarrow> RMSFrame_loop ps qs r n = - 1"
  by (induction ps qs r n rule: RMSFrame_loop.induct) auto

lemma squared_distance_nonneg: "0 \<le> squared_distance p q"
  by (simp add: squared_distance_def)

lemma sum_squared_distance_nonneg: "0 \<le> (\<Sum>(p, q) \<leftarrow> zip ps qs. squared_distance p q)"
  by (rule sum_list_nonneg) (auto simp: squared_distance_nonneg)

section \<open>The RMSD of two frames\<close>

text \<open>
  C2. For two frames of the same length \<open>n \<ge> 1\<close>, \<^verbatim>\<open>RMSFrame\<close> returns the square root
  of the sum over the atoms of the squared Euclidean distance of corresponding triples,
  divided by \<open>n\<close>, which is not negative. For two frames of different lengths it returns
  \<open>-1\<close>, which is negative: the mismatch cannot be taken for an RMSD, and not for an RMSD
  of zero.
\<close>

theorem RMSFrame_value_or_mismatch:
  "(length frame1 = length frame2 \<and> 1 \<le> length frame1 \<longrightarrow>
      RMSFrame frame1 frame2 =
        sqrt ((\<Sum>(p, q) \<leftarrow> zip frame1 frame2. squared_distance p q) / real (length frame1)) \<and>
      0 \<le> RMSFrame frame1 frame2) \<and>
   (length frame1 \<noteq> length frame2 \<longrightarrow>
      RMSFrame frame1 frame2 = - 1 \<and> RMSFrame frame1 frame2 < 0)"
proof (intro conjI impI)
  assume eq: "length frame1 = length frame2 \<and> 1 \<le> length frame1"
  then show v: "RMSFrame frame1 frame2 =
      sqrt ((\<Sum>(p, q) \<leftarrow> zip frame1 frame2. squared_distance p q) / real (length frame1))"
    by (simp add: RMSFrame_def RMSFrame_loop_eq)
  show "0 \<le> RMSFrame frame1 frame2"
    unfolding v by (simp add: sum_squared_distance_nonneg)
next
  assume ne: "length frame1 \<noteq> length frame2"
  then show "RMSFrame frame1 frame2 = - 1"
    by (simp add: RMSFrame_def RMSFrame_loop_mismatch)
  then show "RMSFrame frame1 frame2 < 0"
    by simp
qed

text \<open>The three cases on frames of two atoms, of two and one atom, and of one atom.\<close>

theorem RMSFrame_value_or_mismatch_witness:
  "RMSFrame [Atom 0 0 0, Atom 1 0 0] [Atom 0 0 0, Atom 0 0 0] = sqrt (1 / 2) \<and>
   RMSFrame [Atom 0 0 0, Atom 1 0 0] [Atom 0 0 0] = - 1 \<and>
   RMSFrame [Atom 0 0 0] [Atom 0 0 0] = 0"
  using RMSFrame_value_or_mismatch [of "[Atom 0 0 0, Atom 1 0 0]" "[Atom 0 0 0, Atom 0 0 0]"]
    RMSFrame_value_or_mismatch [of "[Atom 0 0 0, Atom 1 0 0]" "[Atom 0 0 0]"]
    RMSFrame_value_or_mismatch [of "[Atom 0 0 0]" "[Atom 0 0 0]"]
  by (simp add: squared_distance_def)

section \<open>An empty trajectory\<close>

lemma CountFrames_no_header:
  "\<forall>l \<in> set file. \<not> is_header l \<Longrightarrow> CountFrames file = 0"
  by (induction "file") auto

text \<open>
  C7. When the file named on the command line has no header line, the program writes
  the line \<^verbatim>\<open>flexcalc error: No frames in trajectory\<close> to standard error and nothing to
  standard output, and exits with status 1. It does so straight after the counting
  pass: the outcome does not depend on the coordinate lines of the file.
\<close>

theorem empty_trajectory_dies:
  assumes "\<forall>l \<in> set file. \<not> is_header l"
    and "fopen name = Some file"
  shows "main fopen (prog # name # args) stk =
           \<lparr>stdout = [],
            stderr = [''flexcalc error: No frames in trajectory'' @ [CHR 0x0A]],
            status = 1\<rparr>"
  using assms
  by (simp add: main_def ParseCmdLine_def CountFrames_no_header Die_def Msg_def PROGNAME_def)

text \<open>A file of two coordinate lines and no header.\<close>

theorem empty_trajectory_dies_witness:
  "main (\<lambda>n. if n = ''traj.txt'' then Some [Coords ''1 2 3'' 1 2 3, Coords [] 0 0 0] else None)
        [''flexcalc'', ''traj.txt'']
        \<lparr>main_header = ''?'', mean_header = ''?'', closest_thisHeader = ''?'', rmsd_header = ''?''\<rparr> =
     \<lparr>stdout = [],
      stderr = [''flexcalc error: No frames in trajectory'' @ [CHR 0x0A]],
      status = 1\<rparr>"
  by (rule empty_trajectory_dies) simp_all

section \<open>The mean frame\<close>

text \<open>
  The step of the accumulation as the specification words it: each coordinate of the
  frame, divided by the frame count, is added into the running mean.
\<close>

definition add_scaled :: "nat \<Rightarrow> FRAME \<Rightarrow> FRAME \<Rightarrow> FRAME" where
  "add_scaled N m f =
     map2 (\<lambda>a c. Atom (ax a + ax c / real N) (ay a + ay c / real N) (az a + az c / real N)) m f"

text \<open>The arithmetic mean of the atoms at position \<open>i\<close> of the frames.\<close>

definition mean_atom :: "FRAME list \<Rightarrow> nat \<Rightarrow> atom" where
  "mean_atom fs i =
     Atom ((\<Sum>f \<leftarrow> fs. ax (f ! i)) / real (length fs))
          ((\<Sum>f \<leftarrow> fs. ay (f ! i)) / real (length fs))
          ((\<Sum>f \<leftarrow> fs. az (f ! i)) / real (length fs))"

lemma AddFrame_same_length:
  "length m = length f \<Longrightarrow> AddFrame m f n = (True, add_scaled n m f)"
  by (induction m f n rule: AddFrame.induct) (auto simp: add_scaled_def)

lemma AddFrame_mismatch:
  "length m \<noteq> length f \<Longrightarrow> fst (AddFrame m f n) = False"
  by (induction m f n rule: AddFrame.induct) (auto split: prod.splits)

lemma length_add_scaled: "length m = length f \<Longrightarrow> length (add_scaled n m f) = length m"
  by (simp add: add_scaled_def)

lemma length_foldl_add_scaled:
  "\<forall>f \<in> set fs. length f = length m \<Longrightarrow> length (foldl (add_scaled n) m fs) = length m"
  by (induction fs arbitrary: m) (auto simp: length_add_scaled)

lemma mean_fold_uniform:
  "\<forall>hf \<in> set r. length (snd hf) = length m \<Longrightarrow>
     mean_fold r m n = (foldl (add_scaled n) m (map snd r), [])"
  by (induction r arbitrary: m) (auto simp: AddFrame_same_length length_add_scaled)

lemma nth_foldl_add_scaled:
  "\<forall>f \<in> set fs. length f = length m \<Longrightarrow> i < length m \<Longrightarrow>
     foldl (add_scaled n) m fs ! i =
       Atom (ax (m ! i) + (\<Sum>f \<leftarrow> fs. ax (f ! i) / real n))
            (ay (m ! i) + (\<Sum>f \<leftarrow> fs. ay (f ! i) / real n))
            (az (m ! i) + (\<Sum>f \<leftarrow> fs. az (f ! i) / real n))"
proof (induction fs arbitrary: m)
  case Nil
  then show ?case by simp
next
  case (Cons f fs)
  then have "length (add_scaled n m f) = length m" and "length f = length m"
    by (simp_all add: length_add_scaled)
  with Cons show ?case
    by (simp add: add_scaled_def algebra_simps)
qed

lemma sum_list_divide: "(\<Sum>x \<leftarrow> xs. g x / (c::real)) = (\<Sum>x \<leftarrow> xs. g x) / c"
  by (induction xs) (auto simp: add_divide_distrib)

lemma read_frames_Nil: "read_frames rd header = [] \<Longrightarrow> fst (ReadFrame rd header) = []"
  by (subst (asm) read_frames.simps) (auto split: prod.splits if_splits)

lemma read_frames_Cons:
  "read_frames rd header = (h, f) # r \<Longrightarrow> fst (ReadFrame rd header) = f"
  by (subst (asm) read_frames.simps) (auto split: prod.splits if_splits)

lemma read_frames_first_entry:
  "firstEntry rd \<Longrightarrow> fst (snd (ReadFrame rd header)) = header"
  by (simp add: ReadFrame_def Let_def split: prod.splits)

lemma ReadFrame_start:
  "ReadFrame (start file) header =
     ((case frames_of file of [] \<Rightarrow> [] | f # r \<Rightarrow> f), header, snd (snd (ReadFrame (start file) header)))"
proof -
  have h: "fst (snd (ReadFrame (start file) header)) = header"
    by (rule read_frames_first_entry) (simp add: start_def)
  have f: "fst (ReadFrame (start file) header) = (case frames_of file of [] \<Rightarrow> [] | f # r \<Rightarrow> f)"
  proof (cases "read_frames (start file) header")
    case Nil
    moreover from Nil have "frames_of file = []"
      using read_frames_header_irrelevant [of "start file" "[]" header] by (simp add: frames_of_def)
    ultimately show ?thesis by (simp add: read_frames_Nil)
  next
    case (Cons a r)
    obtain h f where a: "a = (h, f)" by (cases a)
    from Cons have "map snd (read_frames (start file) []) = f # map snd r"
      using read_frames_header_irrelevant [of "start file" "[]" header] by (simp add: a)
    with Cons a show ?thesis by (simp add: read_frames_Cons frames_of_def)
  qed
  show ?thesis using h f by (cases "ReadFrame (start file) header") auto
qed

lemma frames_of_read_frames: "map snd (read_frames (start file) header) = frames_of file"
  unfolding frames_of_def by (rule read_frames_header_irrelevant)

lemma CalculateMeanCoords_uniform:
  assumes "frames_of file = fs" and "fs \<noteq> []" and "\<forall>f \<in> set fs. length f = length (hd fs)"
  shows "CalculateMeanCoords file n header =
           (foldl (add_scaled n) (map (\<lambda>f. Atom 0 0 0) (hd fs)) fs, [])"
proof -
  from assms obtain f r where fs: "frames_of file = f # r" "hd fs = f"
    by (cases fs) auto
  have "\<forall>hf \<in> set (read_frames (start file) header). length (snd hf) = length (hd fs)"
    using assms(1,3) frames_of_read_frames [of "file" header]
    by (metis (no_types, lifting) image_eqI set_map)
  then have "mean_fold (read_frames (start file) header) (map (\<lambda>f. Atom 0 0 0) (hd fs)) n =
      (foldl (add_scaled n) (map (\<lambda>f. Atom 0 0 0) (hd fs)) (map snd (read_frames (start file) header)), [])"
    by (intro mean_fold_uniform) simp
  then show ?thesis
    unfolding CalculateMeanCoords_def
    by (subst ReadFrame_start) (simp add: fs mean_loop_fold frames_of_read_frames assms(1) [symmetric])
qed

text \<open>
  C3. Let the reader yield the frames \<open>fs\<close> from the file, at least one and all of the
  shape of the first, and let the counting pass count as many. Then the mean-coordinates
  pass writes nothing to standard error and returns the frame obtained from a zeroed
  copy of the first frame's shape by adding, for every frame in turn, each coordinate
  divided by the frame count; that frame has the shape of the first, and its atom at
  each position is the arithmetic mean of the atoms at that position.
\<close>

theorem mean_coords:
  assumes "frames_of file = fs" and "fs \<noteq> []" and "\<forall>f \<in> set fs. length f = length (hd fs)"
    and "CountFrames file = length fs"
  shows "CalculateMeanCoords file (CountFrames file) header =
           (foldl (add_scaled (length fs)) (map (\<lambda>f. Atom 0 0 0) (hd fs)) fs, []) \<and>
         length (fst (CalculateMeanCoords file (CountFrames file) header)) = length (hd fs) \<and>
         (\<forall>i < length (hd fs).
            fst (CalculateMeanCoords file (CountFrames file) header) ! i = mean_atom fs i)"
proof -
  let ?seed = "map (\<lambda>f. Atom 0 0 0) (hd fs)"
  have run: "CalculateMeanCoords file (CountFrames file) header =
      (foldl (add_scaled (length fs)) ?seed fs, [])"
    using CalculateMeanCoords_uniform [OF assms(1-3)] assms(4) by simp
  have shape: "\<forall>f \<in> set fs. length f = length ?seed"
    using assms(3) by simp
  have len: "length (foldl (add_scaled (length fs)) ?seed fs) = length (hd fs)"
    using length_foldl_add_scaled [OF shape] by simp
  have "foldl (add_scaled (length fs)) ?seed fs ! i = mean_atom fs i" if "i < length (hd fs)" for i
    using nth_foldl_add_scaled [OF shape, of i "length fs"] that
    by (simp add: mean_atom_def sum_list_divide)
  with run len show ?thesis by simp
qed

section \<open>A trajectory of two frames\<close>

text \<open>
  The file of the concrete scenario: frame \<^verbatim>\<open>>f1\<close> with the atoms \<open>(0,0,0)\<close> and
  \<open>(2,0,0)\<close>, frame \<^verbatim>\<open>>f2\<close> with the atoms \<open>(0,0,0)\<close> and \<open>(0,0,0)\<close>.
\<close>

definition two_frames :: "line list" where
  "two_frames =
     [Header ''f1'', Coords ''0 0 0'' 0 0 0, Coords ''2 0 0'' 2 0 0,
      Header ''f2'', Coords ''0 0 0'' 0 0 0, Coords ''0 0 0'' 0 0 0]"

lemma two_frames_read:
  "read_frames (start two_frames) h =
     [(h, [Atom 0 0 0, Atom 2 0 0]), (''>f2'', [Atom 0 0 0, Atom 0 0 0])]"
  by (simp add: read_frames.simps two_frames_def start_def ReadFrame_def)

lemma two_frames_of: "frames_of two_frames = [[Atom 0 0 0, Atom 2 0 0], [Atom 0 0 0, Atom 0 0 0]]"
  by (simp add: frames_of_def two_frames_read)

lemma two_frames_count: "CountFrames two_frames = 2"
  by (simp add: two_frames_def)

section \<open>The frame nearest to the mean\<close>

lemma RMSFrame_nonneg: "length f = length g \<Longrightarrow> 0 \<le> RMSFrame f g"
  by (simp add: RMSFrame_def RMSFrame_loop_eq sum_squared_distance_nonneg)

lemma closest_fold_Some:
  assumes "\<forall>hf \<in> set r. length (snd hf) = length m"
  shows "\<exists>c. closest_fold r m header (Some (c0, l0)) = (c, []) \<and>
           ((c = c0 \<and> (\<forall>g \<in> set (map snd r). l0 \<le> RMSFrame m g)) \<or>
            (\<exists>pre post. map snd r = pre @ c # post \<and> RMSFrame m c < l0 \<and>
               (\<forall>g \<in> set pre. RMSFrame m c < RMSFrame m g) \<and>
               (\<forall>g \<in> set post. RMSFrame m c \<le> RMSFrame m g)))"
  using assms
proof (induction r arbitrary: c0 l0)
  case Nil
  then show ?case by simp
next
  case (Cons hf r)
  obtain h f where hf: "hf = (h, f)" by (cases hf)
  from Cons.prems hf have len: "length f = length m" and rest: "\<forall>hf \<in> set r. length (snd hf) = length m"
    by auto
  have nn: "\<not> RMSFrame m f < 0"
    using RMSFrame_nonneg [of m f] len by simp
  show ?case
  proof (cases "RMSFrame m f < l0")
    case True
    from Cons.IH [OF rest, of f "RMSFrame m f"] obtain c where
      run: "closest_fold r m header (Some (f, RMSFrame m f)) = (c, [])" and
      alt: "(c = f \<and> (\<forall>g \<in> set (map snd r). RMSFrame m f \<le> RMSFrame m g)) \<or>
            (\<exists>pre post. map snd r = pre @ c # post \<and> RMSFrame m c < RMSFrame m f \<and>
               (\<forall>g \<in> set pre. RMSFrame m c < RMSFrame m g) \<and>
               (\<forall>g \<in> set post. RMSFrame m c \<le> RMSFrame m g))"
      by blast
    have step: "closest_fold (hf # r) m header (Some (c0, l0)) = (c, [])"
      using run True nn by (simp add: hf CopyFrame_id)
    from alt show ?thesis
    proof
      assume a: "c = f \<and> (\<forall>g \<in> set (map snd r). RMSFrame m f \<le> RMSFrame m g)"
      then have "map snd (hf # r) = [] @ c # map snd r \<and> RMSFrame m c < l0 \<and>
          (\<forall>g \<in> set []. RMSFrame m c < RMSFrame m g) \<and>
          (\<forall>g \<in> set (map snd r). RMSFrame m c \<le> RMSFrame m g)"
        using True by (simp add: hf)
      with step show ?thesis by blast
    next
      assume "\<exists>pre post. map snd r = pre @ c # post \<and> RMSFrame m c < RMSFrame m f \<and>
               (\<forall>g \<in> set pre. RMSFrame m c < RMSFrame m g) \<and>
               (\<forall>g \<in> set post. RMSFrame m c \<le> RMSFrame m g)"
      then obtain pre post where b: "map snd r = pre @ c # post" "RMSFrame m c < RMSFrame m f"
        "\<forall>g \<in> set pre. RMSFrame m c < RMSFrame m g" "\<forall>g \<in> set post. RMSFrame m c \<le> RMSFrame m g"
        by blast
      then have "map snd (hf # r) = (f # pre) @ c # post \<and> RMSFrame m c < l0 \<and>
          (\<forall>g \<in> set (f # pre). RMSFrame m c < RMSFrame m g) \<and>
          (\<forall>g \<in> set post. RMSFrame m c \<le> RMSFrame m g)"
        using True by (simp add: hf)
      with step show ?thesis by blast
    qed
  next
    case False
    from Cons.IH [OF rest, of c0 l0] obtain c where
      run: "closest_fold r m header (Some (c0, l0)) = (c, [])" and
      alt: "(c = c0 \<and> (\<forall>g \<in> set (map snd r). l0 \<le> RMSFrame m g)) \<or>
            (\<exists>pre post. map snd r = pre @ c # post \<and> RMSFrame m c < l0 \<and>
               (\<forall>g \<in> set pre. RMSFrame m c < RMSFrame m g) \<and>
               (\<forall>g \<in> set post. RMSFrame m c \<le> RMSFrame m g))"
      by blast
    have step: "closest_fold (hf # r) m header (Some (c0, l0)) = (c, [])"
      using run False nn by (simp add: hf)
    from alt show ?thesis
    proof
      assume "c = c0 \<and> (\<forall>g \<in> set (map snd r). l0 \<le> RMSFrame m g)"
      then have "c = c0 \<and> (\<forall>g \<in> set (map snd (hf # r)). l0 \<le> RMSFrame m g)"
        using False by (simp add: hf)
      with step show ?thesis by blast
    next
      assume "\<exists>pre post. map snd r = pre @ c # post \<and> RMSFrame m c < l0 \<and>
               (\<forall>g \<in> set pre. RMSFrame m c < RMSFrame m g) \<and>
               (\<forall>g \<in> set post. RMSFrame m c \<le> RMSFrame m g)"
      then obtain pre post where b: "map snd r = pre @ c # post" "RMSFrame m c < l0"
        "\<forall>g \<in> set pre. RMSFrame m c < RMSFrame m g" "\<forall>g \<in> set post. RMSFrame m c \<le> RMSFrame m g"
        by blast
      then have "map snd (hf # r) = (f # pre) @ c # post \<and> RMSFrame m c < l0 \<and>
          (\<forall>g \<in> set (f # pre). RMSFrame m c < RMSFrame m g) \<and>
          (\<forall>g \<in> set post. RMSFrame m c \<le> RMSFrame m g)"
        using False by (simp add: hf)
      with step show ?thesis by blast
    qed
  qed
qed

lemma closest_fold_None:
  assumes "\<forall>hf \<in> set r. length (snd hf) = length m" and "r \<noteq> []"
  shows "\<exists>pre c post. map snd r = pre @ c # post \<and>
           closest_fold r m header None = (c, []) \<and>
           (\<forall>g \<in> set pre. RMSFrame m c < RMSFrame m g) \<and>
           (\<forall>g \<in> set post. RMSFrame m c \<le> RMSFrame m g)"
proof -
  from assms(2) obtain h f r' where r: "r = (h, f) # r'"
    by (cases r) auto
  with assms(1) have len: "length f = length m" and rest: "\<forall>hf \<in> set r'. length (snd hf) = length m"
    by auto
  have nn: "\<not> RMSFrame m f < 0"
    using RMSFrame_nonneg [of m f] len by simp
  from closest_fold_Some [OF rest, of header f "RMSFrame m f"] obtain c where
    run: "closest_fold r' m header (Some (f, RMSFrame m f)) = (c, [])" and
    alt: "(c = f \<and> (\<forall>g \<in> set (map snd r'). RMSFrame m f \<le> RMSFrame m g)) \<or>
          (\<exists>pre post. map snd r' = pre @ c # post \<and> RMSFrame m c < RMSFrame m f \<and>
             (\<forall>g \<in> set pre. RMSFrame m c < RMSFrame m g) \<and>
             (\<forall>g \<in> set post. RMSFrame m c \<le> RMSFrame m g))"
    by blast
  have step: "closest_fold r m header None = (c, [])"
    using run nn by (simp add: r CopyFrame_id)
  from alt show ?thesis
  proof
    assume "c = f \<and> (\<forall>g \<in> set (map snd r'). RMSFrame m f \<le> RMSFrame m g)"
    then have "map snd r = [] @ c # map snd r' \<and>
        (\<forall>g \<in> set []. RMSFrame m c < RMSFrame m g) \<and>
        (\<forall>g \<in> set (map snd r'). RMSFrame m c \<le> RMSFrame m g)"
      by (simp add: r)
    with step show ?thesis by blast
  next
    assume "\<exists>pre post. map snd r' = pre @ c # post \<and> RMSFrame m c < RMSFrame m f \<and>
             (\<forall>g \<in> set pre. RMSFrame m c < RMSFrame m g) \<and>
             (\<forall>g \<in> set post. RMSFrame m c \<le> RMSFrame m g)"
    then obtain pre post where "map snd r' = pre @ c # post" "RMSFrame m c < RMSFrame m f"
      "\<forall>g \<in> set pre. RMSFrame m c < RMSFrame m g" "\<forall>g \<in> set post. RMSFrame m c \<le> RMSFrame m g"
      by blast
    then have "map snd r = (f # pre) @ c # post \<and>
        (\<forall>g \<in> set (f # pre). RMSFrame m c < RMSFrame m g) \<and>
        (\<forall>g \<in> set post. RMSFrame m c \<le> RMSFrame m g)"
      by (simp add: r)
    with step show ?thesis by blast
  qed
qed

lemma read_frames_shape:
  "\<forall>f \<in> set (frames_of file). length f = n \<Longrightarrow>
     \<forall>hf \<in> set (read_frames (start file) header). length (snd hf) = n"
  using frames_of_read_frames [of "file" header]
  by (metis (no_types, lifting) image_eqI set_map)

text \<open>
  C4. Let the reader yield the frames \<open>fs\<close> from the file, at least one and all of the
  shape of the mean frame. Then the selection pass writes nothing to standard error and
  returns a frame \<open>c\<close> of \<open>fs\<close> such that every frame before it in \<open>fs\<close> has a strictly
  larger RMSD to the mean frame and every frame after it has an RMSD at least as large:
  \<open>c\<close> has the minimum RMSD, and among the frames that share the minimum it is the one
  read first.
\<close>

theorem closest_is_first_minimum:
  assumes "frames_of file = fs" and "fs \<noteq> []" and "\<forall>f \<in> set fs. length f = length meanFrame"
  shows "\<exists>pre c post. fs = pre @ c # post \<and>
           FindClosestToMean file meanFrame header thisHeader = (c, []) \<and>
           (\<forall>g \<in> set pre. RMSFrame meanFrame c < RMSFrame meanFrame g) \<and>
           (\<forall>g \<in> set post. RMSFrame meanFrame c \<le> RMSFrame meanFrame g)"
proof -
  have shape: "\<forall>hf \<in> set (read_frames (start file) thisHeader). length (snd hf) = length meanFrame"
    using assms(1,3) by (intro read_frames_shape) simp
  have ne: "read_frames (start file) thisHeader \<noteq> []"
    using assms(1,2) frames_of_read_frames [of "file" thisHeader] by auto
  from closest_fold_None [OF shape ne, of header] show ?thesis
    by (simp add: FindClosestToMean_def closest_loop_fold frames_of_read_frames assms(1))
qed

text \<open>
  On the two-frame file both frames are equally far from \<open>[(0,0,0), (1,0,0)]\<close>; the
  first is returned.
\<close>

theorem closest_is_first_minimum_witness:
  "frames_of two_frames = [[Atom 0 0 0, Atom 2 0 0], [Atom 0 0 0, Atom 0 0 0]] \<and>
   (\<exists>pre c post. frames_of two_frames = pre @ c # post \<and>
      FindClosestToMean two_frames [Atom 0 0 0, Atom 1 0 0] [] [] = (c, []) \<and>
      (\<forall>g \<in> set pre. RMSFrame [Atom 0 0 0, Atom 1 0 0] c < RMSFrame [Atom 0 0 0, Atom 1 0 0] g) \<and>
      (\<forall>g \<in> set post. RMSFrame [Atom 0 0 0, Atom 1 0 0] c \<le> RMSFrame [Atom 0 0 0, Atom 1 0 0] g))"
proof -
  have ne: "frames_of two_frames \<noteq> []"
    by (simp add: two_frames_of)
  have shape: "\<forall>f \<in> set (frames_of two_frames). length f = length [Atom 0 0 0, Atom 1 0 0]"
    by (simp add: two_frames_of)
  from closest_is_first_minimum [OF refl ne shape] two_frames_of show ?thesis
    by blast
qed

text \<open>The mean frame of the two-frame file.\<close>

theorem mean_coords_witness:
  "frames_of two_frames = [[Atom 0 0 0, Atom 2 0 0], [Atom 0 0 0, Atom 0 0 0]] \<and>
   CountFrames two_frames = 2 \<and>
   CalculateMeanCoords two_frames (CountFrames two_frames) [] = ([Atom 0 0 0, Atom 1 0 0], []) \<and>
   fst (CalculateMeanCoords two_frames (CountFrames two_frames) []) ! 1 =
     mean_atom (frames_of two_frames) 1 \<and>
   mean_atom (frames_of two_frames) 1 = Atom 1 0 0"
proof -
  have ne: "frames_of two_frames \<noteq> []"
    by (simp add: two_frames_of)
  have shape: "\<forall>f \<in> set (frames_of two_frames). length f = length (hd (frames_of two_frames))"
    by (simp add: two_frames_of)
  have count: "CountFrames two_frames = length (frames_of two_frames)"
    by (simp add: two_frames_of two_frames_count)
  from mean_coords [OF refl ne shape count, of "[]"] show ?thesis
    by (simp add: two_frames_of two_frames_count add_scaled_def mean_atom_def)
qed

section \<open>A run over frames of one shape\<close>

lemma frames_of_nonempty: "f \<in> set (frames_of file) \<Longrightarrow> f \<noteq> []"
  unfolding frames_of_def using read_frames_nonempty by fastforce

lemma rmsd_fold_uniform:
  "\<forall>hf \<in> set r. length (snd hf) = length c \<Longrightarrow>
     rmsd_fold r c acc = Inr (acc + (\<Sum>f \<leftarrow> map snd r. RMSFrame c f))"
proof (induction r arbitrary: acc)
  case Nil
  then show ?case by simp
next
  case (Cons hf r)
  obtain h f where hf: "hf = (h, f)" by (cases hf)
  with Cons.prems have "\<not> RMSFrame c f < 0"
    using RMSFrame_nonneg [of c f] by simp
  with Cons show ?case by (simp add: hf)
qed

lemma CalculateMeanRMSD_uniform:
  assumes "frames_of file = fs" and "\<forall>f \<in> set fs. length f = length c"
  shows "CalculateMeanRMSD file c n header = ((\<Sum>f \<leftarrow> fs. RMSFrame c f) / real n, [])"
proof -
  have "\<forall>hf \<in> set (read_frames (start file) header). length (snd hf) = length c"
    using assms by (intro read_frames_shape) simp
  from rmsd_fold_uniform [OF this, of 0] show ?thesis
    by (simp add: CalculateMeanRMSD_def rmsd_loop_fold frames_of_read_frames assms(1))
qed

lemma sum_RMSFrame_nonneg:
  "\<forall>f \<in> set fs. length f = length c \<Longrightarrow> 0 \<le> (\<Sum>f \<leftarrow> fs. RMSFrame c f)"
  by (rule sum_list_nonneg) (auto simp: RMSFrame_nonneg)

lemma closest_member:
  assumes "frames_of file = fs" and "fs \<noteq> []" and "\<forall>f \<in> set fs. length f = length m"
  shows "snd (FindClosestToMean file m header thisHeader) = [] \<and>
         fst (FindClosestToMean file m header thisHeader) \<in> set fs \<and>
         (\<forall>g \<in> set fs. RMSFrame m (fst (FindClosestToMean file m header thisHeader)) \<le> RMSFrame m g)"
proof -
  have shape: "\<forall>hf \<in> set (read_frames (start file) thisHeader). length (snd hf) = length m"
    using assms(1,3) by (intro read_frames_shape) simp
  have ne: "read_frames (start file) thisHeader \<noteq> []"
    using assms(1,2) frames_of_read_frames [of "file" thisHeader] by auto
  from closest_fold_None [OF shape ne, of header] obtain pre c post where
    "fs = pre @ c # post" "FindClosestToMean file m header thisHeader = (c, [])"
    "\<forall>g \<in> set pre. RMSFrame m c < RMSFrame m g" "\<forall>g \<in> set post. RMSFrame m c \<le> RMSFrame m g"
    by (auto simp: FindClosestToMean_def closest_loop_fold frames_of_read_frames assms(1))
  then show ?thesis by fastforce
qed

text \<open>
  What \<^verbatim>\<open>main\<close> does when the reader yields at least one frame, all frames have the
  shape of the first and at least one header was counted.
\<close>

lemma main_uniform:
  assumes "fopen name = Some file" and "frames_of file = fs" and "fs \<noteq> []"
    and "\<forall>f \<in> set fs. length f = length (hd fs)" and "1 \<le> CountFrames file"
    and "m = foldl (add_scaled (CountFrames file)) (map (\<lambda>f. Atom 0 0 0) (hd fs)) fs"
    and "c = fst (FindClosestToMean file m (main_header stk) (closest_thisHeader stk))"
  shows "main fopen (prog # name # args) stk =
           \<lparr>stdout = [Fixed4 ((\<Sum>f \<leftarrow> fs. RMSFrame c f) / real (CountFrames file))],
            stderr = [], status = 0\<rparr>"
proof -
  have hd_in: "hd fs \<in> set fs"
    using assms(3) by simp
  then have hd_ne: "hd fs \<noteq> []"
    using frames_of_nonempty assms(2) by blast
  have mean: "CalculateMeanCoords file (CountFrames file) (mean_header stk) = (m, [])"
    using CalculateMeanCoords_uniform [OF assms(2-4)] assms(6) by simp
  have len_m: "length m = length (hd fs)"
    unfolding assms(6) using length_foldl_add_scaled [of fs "map (\<lambda>f. Atom 0 0 0) (hd fs)"] assms(4)
    by simp
  then have m_ne: "m \<noteq> []"
    using hd_ne by auto
  have shape_m: "\<forall>f \<in> set fs. length f = length m"
    using assms(4) len_m by simp
  from closest_member [OF assms(2,3) shape_m, of "main_header stk" "closest_thisHeader stk"]
  have cl: "FindClosestToMean file m (main_header stk) (closest_thisHeader stk) = (c, [])"
    and c_in: "c \<in> set fs"
    unfolding assms(7) by (simp_all add: prod_eq_iff)
  from c_in assms(4) hd_ne have c_ne: "c \<noteq> []"
    by auto
  from c_in assms(4) have shape_c: "\<forall>f \<in> set fs. length f = length c"
    by simp
  have rms: "CalculateMeanRMSD file c (CountFrames file) (rmsd_header stk) =
      ((\<Sum>f \<leftarrow> fs. RMSFrame c f) / real (CountFrames file), [])"
    by (rule CalculateMeanRMSD_uniform [OF assms(2) shape_c])
  have nonneg: "\<not> (\<Sum>f \<leftarrow> fs. RMSFrame c f) / real (CountFrames file) < 0"
    using sum_RMSFrame_nonneg [OF shape_c] by (simp add: not_less)
  show ?thesis
    using assms(1,5) mean m_ne cl c_ne rms nonneg
    by (simp add: main_def ParseCmdLine_def)
qed

section \<open>The concrete scenario\<close>

lemma two_frames_mean:
  "CalculateMeanCoords two_frames 2 header = ([Atom 0 0 0, Atom 1 0 0], [])"
  using CalculateMeanCoords_uniform [of two_frames _ 2 header, OF two_frames_of]
  by (simp add: add_scaled_def)

lemma two_frames_closest:
  "FindClosestToMean two_frames [Atom 0 0 0, Atom 1 0 0] header thisHeader =
     ([Atom 0 0 0, Atom 2 0 0], [])"
  by (simp add: FindClosestToMean_def closest_loop_fold two_frames_read RMSFrame_def)

lemma sqrt2_over_2_rounds: "\<bar>sqrt 2 / 2 - 0.7071\<bar> < (0.00005 :: real)"
proof -
  have lo: "(1.4141 :: real) < sqrt 2"
    by (rule real_less_rsqrt) (simp add: power2_eq_square)
  have hi: "sqrt 2 < (1.4143 :: real)"
    by (rule real_less_lsqrt) (simp_all add: power2_eq_square)
  from lo hi have "14141 < sqrt 2 * 10000" "sqrt 2 * 10000 < 14143"
    by simp_all
  then have "\<bar>sqrt 2 / 2 - 7071 / 10000\<bar> < (1 / 20000 :: real)"
    by linarith
  then show ?thesis
    by simp
qed

text \<open>
  C1. On the file of the two frames \<^verbatim>\<open>>f1\<close> and \<^verbatim>\<open>>f2\<close> the counting pass counts 2, the
  mean frame is \<open>[(0,0,0), (1,0,0)]\<close>, the frame nearest to it is that of \<^verbatim>\<open>>f1\<close>, and
  the program writes one value to standard output, nothing to standard error and exits
  with status 0. The value is \<open>sqrt 2 / 2\<close>, less than \<open>0.00005\<close> away from \<open>0.7071\<close>:
  to four decimal places it is printed as \<^verbatim>\<open>0.7071\<close>.
\<close>

theorem two_frames_scenario:
  "CountFrames two_frames = 2 \<and>
   CalculateMeanCoords two_frames 2 (mean_header stk) = ([Atom 0 0 0, Atom 1 0 0], []) \<and>
   FindClosestToMean two_frames [Atom 0 0 0, Atom 1 0 0] (main_header stk) (closest_thisHeader stk) =
     ([Atom 0 0 0, Atom 2 0 0], []) \<and>
   main (fopen(name \<mapsto> two_frames)) (prog # name # args) stk =
     \<lparr>stdout = [Fixed4 (sqrt 2 / 2)], stderr = [], status = 0\<rparr> \<and>
   \<bar>sqrt 2 / 2 - 0.7071\<bar> < (0.00005 :: real)"
proof -
  have rms: "CalculateMeanRMSD two_frames [Atom 0 0 0, Atom 2 0 0] 2 (rmsd_header stk) =
      (sqrt 2 / 2, [])"
    by (simp add: CalculateMeanRMSD_def rmsd_loop_fold two_frames_read RMSFrame_def)
  have run: "main (fopen(name \<mapsto> two_frames)) (prog # name # args) stk =
      \<lparr>stdout = [Fixed4 (sqrt 2 / 2)], stderr = [], status = 0\<rparr>"
    by (simp add: main_def ParseCmdLine_def two_frames_count two_frames_mean two_frames_closest rms)
  show ?thesis
    by (intro conjI two_frames_count two_frames_mean two_frames_closest run sqrt2_over_2_rounds)
qed

section \<open>Identical frames\<close>







section \<open>Reordering the frames\<close>




text \<open>Local arrays that happen to hold empty strings at entry.\<close>

definition blank :: stack where
  "blank = \<lparr>main_header = [], mean_header = [], closest_thisHeader = [], rmsd_header = []\<rparr>"

lemma RMSFrame_on_x: "RMSFrame [Atom a 0 0] [Atom b 0 0] = \<bar>a - b\<bar>"
  by (simp add: RMSFrame_def)

















section \<open>A frame without coordinate lines\<close>

text \<open>
  Whether the loop of \<^verbatim>\<open>ReadFrame\<close>, run over the lines \<open>ls\<close>, leaves through its
  \<^verbatim>\<open>break\<close> (at a header line that is not the first one) rather than at the end of \<open>ls\<close>.
\<close>

fun stopped :: "line list \<Rightarrow> bool \<Rightarrow> bool" where
  "stopped [] fe = False"
| "stopped (Header h # ls) fe = (if \<not> fe then True else stopped ls False)"
| "stopped (Coords t a b c # ls) fe = stopped ls fe"

lemma ReadFrame_loop_append:
  "ReadFrame_loop (pre @ suf) buf fe fr =
     (case ReadFrame_loop pre buf fe fr of
        (f, rd) \<Rightarrow>
          if stopped pre fe then (f, rd\<lparr>input := input rd @ suf\<rparr>)
          else ReadFrame_loop suf (buffer rd) (firstEntry rd) f)"
  by (induction pre buf fe fr rule: ReadFrame_loop.induct) auto

lemma stopped_reader:
  "stopped pre fe \<Longrightarrow> ReadFrame_loop pre buf fe fr = (f, rd) \<Longrightarrow>
     \<not> firstEntry rd \<and> length (input rd) < length pre"
  by (induction pre buf fe fr rule: ReadFrame_loop.induct) (auto split: if_splits)

lemma not_stopped_reader:
  "\<not> stopped pre fe \<Longrightarrow> ReadFrame_loop pre buf fe fr = (f, rd) \<Longrightarrow>
     input rd = [] \<and> (firstEntry rd \<longrightarrow> fe \<and> (\<forall>l \<in> set pre. \<not> is_header l))"
  by (induction pre buf fe fr rule: ReadFrame_loop.induct) (auto split: if_splits)

lemma read_frames_at_end: "input rd = [] \<Longrightarrow> read_frames rd h = []"
  by (subst read_frames.simps) (simp add: ReadFrame_def Let_def)

lemma read_frames_at_header:
  "input rd = Header b # post \<Longrightarrow> \<not> firstEntry rd \<Longrightarrow> read_frames rd h = []"
  by (subst read_frames.simps) (simp add: ReadFrame_def Let_def)

lemma read_frames_unfold:
  assumes "ReadFrame_loop ls b0 fe [] = (f, rd)"
    and "b0 = (if fe then [] else buf)" and "h0 = (if fe then h else buf)"
  shows "read_frames \<lparr>input = ls, buffer = buf, firstEntry = fe\<rparr> h =
           (if f = [] then [] else (h0, f) # read_frames rd h0)"
proof (cases fe)
  case True
  with assms show ?thesis
    by (subst read_frames.simps) (simp add: ReadFrame_def Let_def)
next
  case False
  with assms show ?thesis
    by (subst read_frames.simps) (simp add: ReadFrame_def Let_def)
qed

lemma read_frames_cut:
  "(fe \<longrightarrow> pre = [] \<or> (\<exists>l \<in> set pre. is_header l)) \<Longrightarrow>
     read_frames \<lparr>input = pre @ Header a # Header b # post, buffer = buf, firstEntry = fe\<rparr> h =
     read_frames \<lparr>input = pre, buffer = buf, firstEntry = fe\<rparr> h"
proof (induction pre arbitrary: buf fe h rule: length_induct)
  case (1 pre)
  let ?suf = "Header a # Header b # post"
  define b0 where "b0 = (if fe then [] else buf)"
  define h0 where "h0 = (if fe then h else buf)"
  obtain f rd where loop: "ReadFrame_loop pre b0 fe [] = (f, rd)"
    by (cases "ReadFrame_loop pre b0 fe []")
  have right: "read_frames \<lparr>input = pre, buffer = buf, firstEntry = fe\<rparr> h =
      (if f = [] then [] else (h0, f) # read_frames rd h0)"
    using loop b0_def h0_def by (rule read_frames_unfold)
  show ?case
  proof (cases "stopped pre fe")
    case True
    with loop have nf: "\<not> firstEntry rd" and shorter: "length (input rd) < length pre"
      using stopped_reader by blast+
    have "ReadFrame_loop (pre @ ?suf) b0 fe [] = (f, rd\<lparr>input := input rd @ ?suf\<rparr>)"
      by (simp add: ReadFrame_loop_append loop True)
    then have left: "read_frames \<lparr>input = pre @ ?suf, buffer = buf, firstEntry = fe\<rparr> h =
        (if f = [] then [] else (h0, f) # read_frames (rd\<lparr>input := input rd @ ?suf\<rparr>) h0)"
      using b0_def h0_def by (rule read_frames_unfold)
    have "read_frames (rd\<lparr>input := input rd @ ?suf\<rparr>) h0 = read_frames rd h0"
    proof -
      have a: "rd\<lparr>input := input rd @ ?suf\<rparr> =
          \<lparr>input = input rd @ ?suf, buffer = buffer rd, firstEntry = False\<rparr>"
        using nf by simp
      have b: "rd = \<lparr>input = input rd, buffer = buffer rd, firstEntry = False\<rparr>"
        using nf by simp
      from "1.IH" shorter
      have "read_frames \<lparr>input = input rd @ ?suf, buffer = buffer rd, firstEntry = False\<rparr> h0 =
          read_frames \<lparr>input = input rd, buffer = buffer rd, firstEntry = False\<rparr> h0"
        by simp
      then show ?thesis
        using a b by simp
    qed
    with left right show ?thesis
      by simp
  next
    case False
    with loop have at_end: "input rd = []"
      and first: "firstEntry rd \<longrightarrow> fe \<and> (\<forall>l \<in> set pre. \<not> is_header l)"
      using not_stopped_reader by blast+
    show ?thesis
    proof (cases "firstEntry rd")
      case True
      with first "1.prems" have "pre = []"
        by blast
      with loop have "f = []"
        by simp
      moreover have "read_frames \<lparr>input = pre @ ?suf, buffer = buf, firstEntry = fe\<rparr> h = []"
        using \<open>pre = []\<close> True first
        by (subst read_frames.simps) (simp add: ReadFrame_def Let_def)
      ultimately show ?thesis
        using right by simp
    next
      case nf: False
      have "ReadFrame_loop (pre @ ?suf) b0 fe [] =
          (f, \<lparr>input = Header b # post, buffer = chars (Header a), firstEntry = False\<rparr>)"
        using nf by (simp add: ReadFrame_loop_append loop False)
      then have left: "read_frames \<lparr>input = pre @ ?suf, buffer = buf, firstEntry = fe\<rparr> h =
          (if f = [] then []
           else (h0, f) # read_frames \<lparr>input = Header b # post, buffer = chars (Header a),
                                        firstEntry = False\<rparr> h0)"
        using b0_def h0_def by (rule read_frames_unfold)
      have "read_frames \<lparr>input = Header b # post, buffer = chars (Header a), firstEntry = False\<rparr> h0 = []"
        by (rule read_frames_at_header) simp_all
      moreover have "read_frames rd h0 = []"
        using at_end by (rule read_frames_at_end)
      ultimately show ?thesis
        using left right by simp
    qed
  qed
qed

lemma read_frames_start_cut:
  "pre = [] \<or> (\<exists>l \<in> set pre. is_header l) \<Longrightarrow>
     read_frames (start (pre @ Header a # Header b # post)) h = read_frames (start pre) h"
  unfolding start_def by (rule read_frames_cut) simp

lemma CountFrames_append: "CountFrames (xs @ ys) = CountFrames xs + CountFrames ys"
  by (induction xs) auto

lemma CalculateMeanCoords_fold:
  "CalculateMeanCoords file n header =
     mean_fold (read_frames (start file) header)
       (map (\<lambda>f. Atom 0 0 0) (case frames_of file of [] \<Rightarrow> [] | f # r \<Rightarrow> f)) n"
  unfolding CalculateMeanCoords_def
  by (subst ReadFrame_start) (simp add: mean_loop_fold)

lemma frames_of_cut:
  "pre = [] \<or> (\<exists>l \<in> set pre. is_header l) \<Longrightarrow>
     frames_of (pre @ Header a # Header b # post) = frames_of pre"
  by (simp add: frames_of_def read_frames_start_cut)

text \<open>
  A file in which the third header is followed at once by the fourth (\<open>gap_head\<close> holds
  the lines before the third header), and a file that begins with a coordinate line and in
  which the first header is followed at once by the second.
\<close>

definition gap_head :: "line list" where
  "gap_head =
     [Header ''f1'', Coords ''0 0 0'' 0 0 0,
      Header ''f2'', Coords ''2 0 0'' 2 0 0]"

definition gap :: "line list" where
  "gap = gap_head @ Header ''f3'' # Header ''f4'' # [Coords ''100 0 0'' 100 0 0]"

definition lead :: "line list" where
  "lead =
     [Coords ''1 0 0'' 1 0 0,
      Header ''a'',
      Header ''b'', Coords ''3 0 0'' 3 0 0]"

lemma lead_read:
  "read_frames (start lead) h = [(h, [Atom 1 0 0]), (''>b'', [Atom 3 0 0])]"
  by (simp add: read_frames.simps lead_def start_def ReadFrame_def)

text \<open>
  In \<open>lead\<close> the header \<^verbatim>\<open>>a\<close> is followed at once by the header \<^verbatim>\<open>>b\<close>, yet the first
  call of \<^verbatim>\<open>ReadFrame\<close> returns a frame (the coordinate line before \<^verbatim>\<open>>a\<close>), the frame of
  \<^verbatim>\<open>>b\<close> is read as well, and the mean frame is taken over both.
\<close>

theorem leading_coordinates_keep_later_frames:
  "lead = [Coords ''1 0 0'' 1 0 0] @ Header ''a'' # Header ''b'' # [Coords ''3 0 0'' 3 0 0] \<and>
   fst (ReadFrame (start lead) []) = [Atom 1 0 0] \<and>
   frames_of lead = [[Atom 1 0 0], [Atom 3 0 0]] \<and>
   frames_of lead \<noteq> frames_of [Coords ''1 0 0'' 1 0 0] \<and>
   CalculateMeanCoords lead (CountFrames lead) [] = ([Atom 2 0 0], [])"
proof -
  have fr: "frames_of lead = [[Atom 1 0 0], [Atom 3 0 0]]"
    by (simp add: frames_of_def lead_read)
  have alone: "frames_of [Coords ''1 0 0'' 1 0 0] = [[Atom 1 0 0]]"
    by (simp add: frames_of_def read_frames.simps start_def ReadFrame_def)
  have first: "fst (ReadFrame (start lead) []) = [Atom 1 0 0]"
    by (simp add: lead_def start_def ReadFrame_def)
  have count: "CountFrames lead = 2"
    by (simp add: lead_def)
  have mean: "CalculateMeanCoords lead 2 [] = ([Atom 2 0 0], [])"
    using CalculateMeanCoords_uniform [OF fr, of 2 "[]"] by (simp add: add_scaled_def)
  show ?thesis
    by (simp add: fr alone first count mean) (simp add: lead_def)
qed

text \<open>
  C8 (amended). Let a header line be followed at once by another header line, and let
  the lines before the pair be none, or hold a header line. Then the reader yields from
  the file exactly the frames it yields from the lines before the pair, so that each of
  the three passes returns what it returns on those lines alone; the counting pass still
  counts every header line of the file; and when the frames before the pair are at least
  one and of one shape, the program prints the sum of their RMSDs to the nearest of them
  divided by the count of all header lines.
\<close>

theorem empty_frame_ends_stream:
  assumes "pre = [] \<or> (\<exists>l \<in> set pre. is_header l)"
  shows "frames_of (pre @ Header a # Header b # post) = frames_of pre \<and>
         CountFrames (pre @ Header a # Header b # post) = CountFrames pre + 2 + CountFrames post \<and>
         CalculateMeanCoords (pre @ Header a # Header b # post) n h = CalculateMeanCoords pre n h \<and>
         FindClosestToMean (pre @ Header a # Header b # post) m h th = FindClosestToMean pre m h th \<and>
         CalculateMeanRMSD (pre @ Header a # Header b # post) c n h = CalculateMeanRMSD pre c n h \<and>
         (fopen name = Some (pre @ Header a # Header b # post) \<and> frames_of pre \<noteq> [] \<and>
          (\<forall>f \<in> set (frames_of pre). length f = length (hd (frames_of pre))) \<longrightarrow>
          main fopen (prog # name # args) stk =
            \<lparr>stdout =
               [Fixed4
                  ((\<Sum>f \<leftarrow> frames_of pre.
                      RMSFrame
                        (fst (FindClosestToMean pre
                                (fst (CalculateMeanCoords pre (CountFrames pre + 2 + CountFrames post)
                                        (mean_header stk)))
                                (main_header stk) (closest_thisHeader stk))) f) /
                   real (CountFrames pre + 2 + CountFrames post))],
             stderr = [], status = 0\<rparr>)"
proof -
  let ?file = "pre @ Header a # Header b # post"
  let ?n = "CountFrames pre + 2 + CountFrames post"
  have frames: "frames_of ?file = frames_of pre"
    using assms by (rule frames_of_cut)
  have read: "read_frames (start ?file) x = read_frames (start pre) x" for x
    using assms by (rule read_frames_start_cut)
  have count: "CountFrames ?file = ?n"
    by (simp add: CountFrames_append)
  have mean: "CalculateMeanCoords ?file k x = CalculateMeanCoords pre k x" for k x
    by (simp add: CalculateMeanCoords_fold frames read)
  have closest: "FindClosestToMean ?file m x y = FindClosestToMean pre m x y" for m x y
    by (simp add: FindClosestToMean_def closest_loop_fold read)
  have rms: "CalculateMeanRMSD ?file c n h = CalculateMeanRMSD pre c n h"
    by (simp add: CalculateMeanRMSD_def rmsd_loop_fold read)
  have run: "main fopen (prog # name # args) stk =
      \<lparr>stdout =
         [Fixed4
            ((\<Sum>f \<leftarrow> frames_of pre.
                RMSFrame
                  (fst (FindClosestToMean pre
                          (fst (CalculateMeanCoords pre ?n (mean_header stk)))
                          (main_header stk) (closest_thisHeader stk))) f) /
             real ?n)],
       stderr = [], status = 0\<rparr>"
    if op: "fopen name = Some ?file" and ne: "frames_of pre \<noteq> []"
      and shape: "\<forall>f \<in> set (frames_of pre). length f = length (hd (frames_of pre))"
  proof -
    define N where "N = CountFrames pre + 2 + CountFrames post"
    have cnt: "CountFrames ?file = N"
      by (simp add: N_def CountFrames_append)
    have one: "1 \<le> CountFrames ?file"
      by (simp add: cnt N_def)
    have m: "fst (CalculateMeanCoords pre N (mean_header stk)) =
        foldl (add_scaled N) (map (\<lambda>f. Atom 0 0 0) (hd (frames_of pre))) (frames_of pre)"
      using CalculateMeanCoords_uniform [OF refl ne shape, of N "mean_header stk"] by simp
    have "main fopen (prog # name # args) stk =
        \<lparr>stdout =
           [Fixed4
              ((\<Sum>f \<leftarrow> frames_of pre.
                  RMSFrame
                    (fst (FindClosestToMean pre
                            (fst (CalculateMeanCoords pre N (mean_header stk)))
                            (main_header stk) (closest_thisHeader stk))) f) /
               real N)],
         stderr = [], status = 0\<rparr>"
      using main_uniform [where fopen = fopen and name = name and stk = stk and prog = prog
          and args = args, OF op frames ne shape one refl refl]
      unfolding cnt m closest .
    then show ?thesis
      unfolding N_def .
  qed
  from frames count mean closest rms run show ?thesis
    by blast
qed

text \<open>
  The run on \<open>gap\<close>: two frames are read, four headers are counted, and the sum of
  the RMSDs, 2, is divided by 4.
\<close>

theorem empty_frame_ends_stream_witness:
  "gap = gap_head @ Header ''f3'' # Header ''f4'' # [Coords ''100 0 0'' 100 0 0] \<and>
   frames_of gap_head = [[Atom 0 0 0], [Atom 2 0 0]] \<and>
   frames_of gap = [[Atom 0 0 0], [Atom 2 0 0]] \<and>
   CountFrames gap = 4 \<and>
   main [''g'' \<mapsto> gap] [''flexcalc'', ''g''] blank =
     \<lparr>stdout = [Fixed4 (1 / 2)], stderr = [], status = 0\<rparr>"
proof -
  let ?post = "[Coords ''100 0 0'' 100 0 0]"
  have hyp: "gap_head = [] \<or> (\<exists>l \<in> set gap_head. is_header l)"
    by (simp add: gap_head_def)
  have read: "read_frames (start gap_head) h = [(h, [Atom 0 0 0]), (''>f2'', [Atom 2 0 0])]" for h
    by (simp add: read_frames.simps start_def ReadFrame_def gap_head_def)
  have fr: "frames_of gap_head = [[Atom 0 0 0], [Atom 2 0 0]]"
    by (simp add: frames_of_def read)
  have n: "CountFrames gap_head + 2 + CountFrames ?post = 4"
    by (simp add: gap_head_def)
  have op: "[''g'' \<mapsto> gap] ''g'' = Some (gap_head @ Header ''f3'' # Header ''f4'' # ?post)"
    by (simp add: gap_def)
  have mean: "CalculateMeanCoords gap_head 4 h = ([Atom (1 / 2) 0 0], [])" for h
    using CalculateMeanCoords_uniform [OF fr, of 4 h] by (simp add: add_scaled_def)
  have closest: "FindClosestToMean gap_head [Atom (1 / 2) 0 0] h th = ([Atom 0 0 0], [])" for h th
    by (simp add: FindClosestToMean_def closest_loop_fold read RMSFrame_on_x)
  note inst = empty_frame_ends_stream [where pre = gap_head and a = "''f3''" and b = "''f4''"
      and post = ?post and fopen = "[''g'' \<mapsto> gap]" and name = "''g''" and stk = blank
      and prog = "''flexcalc''" and args = "[]", OF hyp, unfolded n]
  from inst have a: "frames_of gap = [[Atom 0 0 0], [Atom 2 0 0]]" and b: "CountFrames gap = 4"
    unfolding gap_def fr by blast+
  have shape: "\<forall>f \<in> set (frames_of gap_head). length f = length (hd (frames_of gap_head))"
    by (simp add: fr)
  from inst op shape have "main [''g'' \<mapsto> gap] [''flexcalc'', ''g''] blank =
      \<lparr>stdout =
         [Fixed4
            ((\<Sum>f \<leftarrow> frames_of gap_head.
                RMSFrame
                  (fst (FindClosestToMean gap_head
                          (fst (CalculateMeanCoords gap_head 4 (mean_header blank)))
                          (main_header blank) (closest_thisHeader blank))) f) /
             real 4)],
       stderr = [], status = 0\<rparr>"
    by (simp add: fr)
  then have c: "main [''g'' \<mapsto> gap] [''flexcalc'', ''g''] blank =
      \<lparr>stdout = [Fixed4 (1 / 2)], stderr = [], status = 0\<rparr>"
    by (simp add: fr mean closest RMSFrame_on_x)
  from a b c fr show ?thesis
    by (simp add: gap_def)
qed

section \<open>Frames of different shapes\<close>

text \<open>
  Two files whose frames do not all have the atom count of the first. In \<open>ragged\<close> the
  second frame has two atoms. In \<open>hollow\<close> the second frame has none and the third has
  two.
\<close>

definition ragged :: "line list" where
  "ragged =
     [Header ''f1'', Coords ''1 0 0'' 1 0 0,
      Header ''f2'', Coords ''2 0 0'' 2 0 0, Coords ''3 0 0'' 3 0 0]"

definition hollow :: "line list" where
  "hollow =
     [Header ''f1'', Coords ''1 0 0'' 1 0 0,
      Header ''f2'',
      Header ''f3'', Coords ''2 0 0'' 2 0 0, Coords ''3 0 0'' 3 0 0]"

text \<open>
  C5, on two inputs. On \<open>ragged\<close> the program aborts as stated: it writes the
  mismatch message with the header \<^verbatim>\<open>>f2\<close> to standard error, prints no score and exits
  with status 1. On \<open>hollow\<close> it does not: the frame without coordinates ends every
  pass, neither \<^verbatim>\<open>>f2\<close> nor \<^verbatim>\<open>>f3\<close> is reported, and the program prints the score 0
  and exits with status 0.
\<close>

theorem mismatch_behind_empty_frame_is_missed:
  "main [''r'' \<mapsto> ragged, ''h'' \<mapsto> hollow] [''flexcalc'', ''r''] blank =
     \<lparr>stdout = [],
      stderr = [Msg MSG_ATOMMISMATCH ''>f2'', Msg ''Unable to calculate mean coordinates'' []],
      status = 1\<rparr> \<and>
   main [''r'' \<mapsto> ragged, ''h'' \<mapsto> hollow] [''flexcalc'', ''h''] blank =
     \<lparr>stdout = [Fixed4 0], stderr = [], status = 0\<rparr>"
proof -
  have r_read: "read_frames (start ragged) h =
      [(h, [Atom 1 0 0]), (''>f2'', [Atom 2 0 0, Atom 3 0 0])]" for h
    by (simp add: read_frames.simps ragged_def start_def ReadFrame_def)
  have r_of: "frames_of ragged = [[Atom 1 0 0], [Atom 2 0 0, Atom 3 0 0]]"
    by (simp add: frames_of_def r_read)
  have r_count: "CountFrames ragged = 2"
    by (simp add: ragged_def)
  have r_mean: "CalculateMeanCoords ragged 2 h = ([], [Msg MSG_ATOMMISMATCH ''>f2''])" for h
    by (simp add: CalculateMeanCoords_fold r_read r_of)
  have r: "main [''r'' \<mapsto> ragged, ''h'' \<mapsto> hollow] [''flexcalc'', ''r''] blank =
      \<lparr>stdout = [],
       stderr = [Msg MSG_ATOMMISMATCH ''>f2'', Msg ''Unable to calculate mean coordinates'' []],
       status = 1\<rparr>"
    by (simp add: main_def ParseCmdLine_def r_count r_mean Die_def)
  have h_read: "read_frames (start hollow) h = [(h, [Atom 1 0 0])]" for h
    by (simp add: read_frames.simps hollow_def start_def ReadFrame_def)
  have h_of: "frames_of hollow = [[Atom 1 0 0]]"
    by (simp add: frames_of_def h_read)
  have h_count: "CountFrames hollow = 3"
    by (simp add: hollow_def)
  have h_mean: "CalculateMeanCoords hollow 3 h = ([Atom (1 / 3) 0 0], [])" for h
    by (simp add: CalculateMeanCoords_fold h_read h_of)
  have h_closest: "FindClosestToMean hollow [Atom (1 / 3) 0 0] h th = ([Atom 1 0 0], [])" for h th
    by (simp add: FindClosestToMean_def closest_loop_fold h_read RMSFrame_on_x)
  have h_rms: "CalculateMeanRMSD hollow [Atom 1 0 0] 3 h = (0, [])" for h
    by (simp add: CalculateMeanRMSD_def rmsd_loop_fold h_read RMSFrame_on_x)
  have h: "main [''r'' \<mapsto> ragged, ''h'' \<mapsto> hollow] [''flexcalc'', ''h''] blank =
      \<lparr>stdout = [Fixed4 0], stderr = [], status = 0\<rparr>"
    by (simp add: main_def ParseCmdLine_def h_count h_mean h_closest h_rms)
  from r h show ?thesis
    by blast
qed

section \<open>The command line\<close>

text \<open>
  C6, on the code. \<^verbatim>\<open>ParseCmdLine\<close> returns \<^verbatim>\<open>TRUE\<close> whatever the arguments, so \<^verbatim>\<open>main\<close>
  never reaches its call of \<^verbatim>\<open>Usage\<close>: no run writes the usage text. Started without an
  argument, the program leaves \<^verbatim>\<open>inFile\<close> empty; where no file of the empty name can be
  opened it writes nothing at all and exits with status 0.
\<close>

theorem usage_is_never_shown:
  "fst (ParseCmdLine argv inFile) \<and>
   stdout (main fopen argv stk) \<noteq> Usage \<and>
   main (fopen([] := None)) [prog] stk = \<lparr>stdout = [], stderr = [], status = 0\<rparr> \<and>
   main (fopen([] := None)) [] stk = \<lparr>stdout = [], stderr = [], status = 0\<rparr>"
proof -
  have parse: "fst (ParseCmdLine argv inFile)"
    by (simp add: ParseCmdLine_def split: list.splits)
  have "stdout (main fopen argv stk) = [] \<or> (\<exists>r. stdout (main fopen argv stk) = [Fixed4 r])"
    by (auto simp: main_def ParseCmdLine_def Die_def split: list.splits option.splits prod.splits)
  then have never: "stdout (main fopen argv stk) \<noteq> Usage"
    by (auto simp: Usage_def)
  have silent: "main (fopen([] := None)) [prog] stk = \<lparr>stdout = [], stderr = [], status = 0\<rparr>"
    "main (fopen([] := None)) [] stk = \<lparr>stdout = [], stderr = [], status = 0\<rparr>"
    by (simp_all add: main_def ParseCmdLine_def)
  from parse never silent show ?thesis
    by blast
qed

end
